theory Spec2Isabelle
  imports Main "HOL-Library.AList"
begin

section \<open>ConnectionsContext: a per-tenant cache of Mongoose connections\<close>

text \<open>
  A shallow embedding of \<^verbatim>\<open>src/connections.context.js\<close>. The class keeps a JavaScript
  \<^verbatim>\<open>Map\<close> from connection keys to connection objects owned by the Mongoose driver.
  Connection objects are mutable and compared by identity, so they live in a store and the
  Map holds their addresses. The driver is external: what it answers to
  \<^verbatim>\<open>createConnection\<close>, \<^verbatim>\<open>close\<close> and \<^verbatim>\<open>ping\<close> is a parameter of every method,
  and every call made to it, every console line and every event it emits is appended to a
  trace. Each method runs from call to return without interleaving: what other callers do
  while a method awaits the driver is not part of a method's own behaviour, and events the
  driver emits are steps of their own (\<open>emit\<close>).
\<close>

subsection \<open>Data\<close>

type_synonym ref = nat

text \<open>\<^verbatim>\<open>this.connectionOptions\<close>, lines 25-30.\<close>

record connectionOptions =
  maxPoolSize :: nat
  serverSelectionTimeoutMS :: nat
  socketTimeoutMS :: nat
  bufferCommands :: bool

text \<open>A JavaScript error value; the code reads only its \<^verbatim>\<open>message\<close>.\<close>

datatype js_error = JsError (message: string)

text \<open>
  The four closures of \<^verbatim>\<open>setupConnectionListeners\<close> (lines 70-86); each captures
  \<^verbatim>\<open>connectionKey\<close>.
\<close>

datatype callback =
    LogConnected string
  | EvictOnError string
  | EvictOnDisconnected string
  | LogReconnected string

text \<open>
  A Mongoose connection object: the fields the code reads (\<^verbatim>\<open>readyState\<close>, \<^verbatim>\<open>host\<close>,
  \<^verbatim>\<open>port\<close>, \<^verbatim>\<open>name\<close>, the keys of \<^verbatim>\<open>models\<close>, which may be missing) and the
  listeners registered with \<^verbatim>\<open>on\<close>, each under its event name, in registration order.
\<close>

record connection =
  readyState :: int
  host :: string
  port :: int
  name :: string
  models :: "string list option"
  listeners :: "(string \<times> callback) list"

text \<open>The console lines the code prints, one constructor per call site.\<close>

datatype console_line =
    Connected_to_database string
  | Failed_to_connect string js_error
  | Database_connected string
  | Database_error string "js_error option"
  | Database_disconnected string
  | Database_reconnected string
  | Closed_connection string
  | Error_closing_connection string js_error
  | All_database_connections_closed

text \<open>What the outside world sees, in order.\<close>

datatype effect =
    CreateConnection string connectionOptions
  | Close ref
  | Ping ref
  | Emit ref string
  | Console_log console_line
  | Console_error console_line

text \<open>
  The driver's answers: \<^verbatim>\<open>mongoose.createConnection(uri, options)\<close> resolves to a new
  connection object or rejects with an error; \<^verbatim>\<open>connection.close()\<close> and
  \<^verbatim>\<open>connection.db.admin().ping()\<close> resolve or reject.
\<close>

record driver =
  drv_createConnection :: "string \<Rightarrow> connectionOptions \<Rightarrow> js_error + connection"
  drv_close :: "ref \<Rightarrow> js_error option"
  drv_ping :: "ref \<Rightarrow> js_error option"

text \<open>
  The instance (\<^verbatim>\<open>connections\<close>, \<^verbatim>\<open>baseConnectionString\<close>, \<^verbatim>\<open>mainDbName\<close>,
  \<^verbatim>\<open>connectionOptions\<close>) together with the object store, the next free address and the
  trace. \<^verbatim>\<open>connections\<close> is a JavaScript Map: an association list in insertion order.

  Map objects have an identity too. The Map of the instance is the object at address
  \<open>connections_addr\<close>, and \<open>connections\<close> holds its entries; every other Map object
  lives in \<open>map_store\<close>, and \<open>next_map\<close> is the next free Map address.
\<close>

record state =
  connections :: "(string \<times> ref) list"
  baseConnectionString :: string
  mainDbName :: string
  connectionOptions :: connectionOptions
  heap :: "ref \<Rightarrow> connection"
  next_ref :: ref
  effects :: "effect list"
  connections_addr :: nat
  map_store :: "nat \<rightharpoonup> (string \<times> ref) list"
  next_map :: nat

subsection \<open>The constructor\<close>

text \<open>\<^verbatim>\<open>process.env.X || fallback\<close>: a missing or empty variable gives the fallback.\<close>

definition env_or :: "(string \<rightharpoonup> string) \<Rightarrow> string \<Rightarrow> string \<Rightarrow> string" where
  "env_or env var fallback =
     (case env var of None \<Rightarrow> fallback | Some v \<Rightarrow> if v = [] then fallback else v)"

definition blank_connection :: connection where
  "blank_connection =
     \<lparr>readyState = 0, host = [], port = 0, name = [], models = None, listeners = []\<rparr>"

definition new_ConnectionsContext :: "(string \<rightharpoonup> string) \<Rightarrow> state" where
  "new_ConnectionsContext env =
     \<lparr>connections = [],
      baseConnectionString =
        env_or env ''MONGODB_URI'' ''mongodb+srv://<username>:<password>@<cluster-url>'',
      mainDbName = env_or env ''MAIN_DB_NAME'' ''defaultDb'',
      connectionOptions =
        \<lparr>maxPoolSize = 10, serverSelectionTimeoutMS = 5000, socketTimeoutMS = 45000,
         bufferCommands = False\<rparr>,
      heap = (\<lambda>_. blank_connection),
      next_ref = 0,
      effects = [],
      connections_addr = 0,
      map_store = Map.empty,
      next_map = 1\<rparr>"

subsection \<open>Small steps shared by the methods\<close>

definition emit_effect :: "effect \<Rightarrow> state \<Rightarrow> state" where
  "emit_effect e s = s\<lparr>effects := effects s @ [e]\<rparr>"

text \<open>
  \<^verbatim>\<open>tenantId || "main"\<close> (lines 39, 106, 172): \<^verbatim>\<open>null\<close>, an absent argument and the
  empty string are falsy.
\<close>

definition connectionKey_of :: "string option \<Rightarrow> string" where
  "connectionKey_of tenantId =
     (case tenantId of None \<Rightarrow> ''main'' | Some t \<Rightarrow> if t = [] then ''main'' else t)"

text \<open>Line 49: \<^verbatim>\<open>tenantId ? `${this.mainDbName}_${tenantId}` : this.mainDbName\<close>.\<close>

definition dbName_of :: "string \<Rightarrow> string option \<Rightarrow> string" where
  "dbName_of mainDb tenantId =
     (case tenantId of None \<Rightarrow> mainDb
      | Some t \<Rightarrow> if t = [] then mainDb else mainDb @ ''_'' @ t)"

text \<open>The driver hands out a new object: it is stored at the next free address.\<close>

definition alloc :: "connection \<Rightarrow> state \<Rightarrow> ref \<times> state" where
  "alloc obj s =
     (next_ref s, s\<lparr>heap := (heap s)(next_ref s := obj), next_ref := Suc (next_ref s)\<rparr>)"

subsection \<open>setupConnectionListeners and the events of the driver\<close>

text \<open>Lines 69-87: four calls of \<^verbatim>\<open>connection.on\<close>.\<close>

definition on :: "ref \<Rightarrow> string \<Rightarrow> callback \<Rightarrow> state \<Rightarrow> state" where
  "on c ev cb s =
     s\<lparr>heap := (heap s)(c := (heap s c)\<lparr>listeners := listeners (heap s c) @ [(ev, cb)]\<rparr>)\<rparr>"

definition setupConnectionListeners :: "ref \<Rightarrow> string \<Rightarrow> state \<Rightarrow> state" where
  "setupConnectionListeners c connectionKey s =
     on c ''reconnected'' (LogReconnected connectionKey)
       (on c ''disconnected'' (EvictOnDisconnected connectionKey)
         (on c ''error'' (EvictOnError connectionKey)
           (on c ''connected'' (LogConnected connectionKey) s)))"

text \<open>The bodies of the four closures; \<open>arg\<close> is the argument the emitter passes.\<close>

fun run_callback :: "callback \<Rightarrow> js_error option \<Rightarrow> state \<Rightarrow> state" where
  "run_callback (LogConnected k) arg s = emit_effect (Console_log (Database_connected k)) s"
| "run_callback (EvictOnError k) arg s =
     (let s1 = emit_effect (Console_error (Database_error k arg)) s
      in s1\<lparr>connections := AList.delete k (connections s1)\<rparr>)"
| "run_callback (EvictOnDisconnected k) arg s =
     (let s1 = emit_effect (Console_log (Database_disconnected k)) s
      in s1\<lparr>connections := AList.delete k (connections s1)\<rparr>)"
| "run_callback (LogReconnected k) arg s = emit_effect (Console_log (Database_reconnected k)) s"

fun run_listeners :: "(string \<times> callback) list \<Rightarrow> string \<Rightarrow> js_error option \<Rightarrow> state \<Rightarrow> state" where
  "run_listeners [] ev arg s = s"
| "run_listeners ((n, cb) # ls) ev arg s =
     run_listeners ls ev arg (if n = ev then run_callback cb arg s else s)"

text \<open>
  The driver emits event \<open>ev\<close> on connection \<open>c\<close>: the listeners registered under that
  name run in registration order.
\<close>

definition emit :: "ref \<Rightarrow> string \<Rightarrow> js_error option \<Rightarrow> state \<Rightarrow> state" where
  "emit c ev arg s = run_listeners (listeners (heap s c)) ev arg (emit_effect (Emit c ev) s)"

text \<open>The driver changes the readiness of a connection.\<close>

definition set_readyState :: "ref \<Rightarrow> int \<Rightarrow> state \<Rightarrow> state" where
  "set_readyState c v s = s\<lparr>heap := (heap s)(c := (heap s c)\<lparr>readyState := v\<rparr>)\<rparr>"

subsection \<open>getConnection\<close>

text \<open>
  Lines 48-61, the \<^verbatim>\<open>try\<close> block: the address is built, the driver is asked once, and
  either the new connection gets its listeners and is stored, or the error is logged and a
  new \<^verbatim>\<open>Error\<close> is thrown.
\<close>

definition connect :: "driver \<Rightarrow> string option \<Rightarrow> string \<Rightarrow> state \<Rightarrow> (js_error + ref) \<times> state" where
  "connect drv tenantId connectionKey s =
     (let dbName = dbName_of (mainDbName s) tenantId;
          connectionString = baseConnectionString s @ ''/'' @ dbName;
          s1 = emit_effect (CreateConnection connectionString (connectionOptions s)) s
      in case drv_createConnection drv connectionString (connectionOptions s) of
           Inr obj \<Rightarrow>
             (let (c, s2) = alloc obj s1;
                  s3 = setupConnectionListeners c connectionKey s2;
                  s4 = s3\<lparr>connections := AList.update connectionKey c (connections s3)\<rparr>;
                  s5 = emit_effect (Console_log (Connected_to_database dbName)) s4
              in (Inr c, s5))
         | Inl error \<Rightarrow>
             (let s2 = emit_effect (Console_error (Failed_to_connect connectionKey error)) s1
              in (Inl (JsError (''Database connection failed: '' @ message error)), s2)))"

text \<open>Lines 38-62.\<close>

definition getConnection :: "driver \<Rightarrow> string option \<Rightarrow> state \<Rightarrow> (js_error + ref) \<times> state" where
  "getConnection drv tenantId s =
     (let connectionKey = connectionKey_of tenantId
      in case map_of (connections s) connectionKey of
           Some c \<Rightarrow>
             if readyState (heap s c) = 1 then (Inr c, s)
             else connect drv tenantId connectionKey
                    (s\<lparr>connections := AList.delete connectionKey (connections s)\<rparr>)
         | None \<Rightarrow> connect drv tenantId connectionKey s)"

subsection \<open>getActiveConnections\<close>

text \<open>The entries of the Map object at an address, if there is one.\<close>

definition map_at :: "state \<Rightarrow> nat \<Rightarrow> (string \<times> ref) list option" where
  "map_at s a = (if a = connections_addr s then Some (connections s) else map_store s a)"

text \<open>\<^verbatim>\<open>new Map()\<close>: an empty Map object at the next free address.\<close>

definition new_Map :: "state \<Rightarrow> nat \<times> state" where
  "new_Map s =
     (next_map s, s\<lparr>map_store := (map_store s)(next_map s \<mapsto> []), next_map := Suc (next_map s)\<rparr>)"

text \<open>\<^verbatim>\<open>m.set(key, value)\<close> on the Map object at address \<open>a\<close>.\<close>

definition Map_set :: "nat \<Rightarrow> string \<Rightarrow> ref \<Rightarrow> state \<Rightarrow> state" where
  "Map_set a key v s =
     (if a = connections_addr s then s\<lparr>connections := AList.update key v (connections s)\<rparr>
      else case map_store s a of
             None \<Rightarrow> s
           | Some m \<Rightarrow> s\<lparr>map_store := (map_store s)(a \<mapsto> AList.update key v m)\<rparr>)"

text \<open>
  Lines 93-99: a new Map, filled in iteration order with the entries of
  \<^verbatim>\<open>this.connections\<close> that are ready; its address is returned.
\<close>

fun active_loop :: "(string \<times> ref) list \<Rightarrow> nat \<Rightarrow> state \<Rightarrow> state" where
  "active_loop [] active s = s"
| "active_loop ((key, c) # rest) active s =
     active_loop rest active
       (if readyState (heap s c) = 1 then Map_set active key c s else s)"

definition getActiveConnections :: "state \<Rightarrow> nat \<times> state" where
  "getActiveConnections s =
     (let (active, s1) = new_Map s
      in (active, active_loop (connections s1) active s1))"

subsection \<open>closeConnection and closeAllConnections\<close>

text \<open>Lines 105-118: \<^verbatim>\<open>try\<close>, \<^verbatim>\<open>catch\<close>, \<^verbatim>\<open>finally\<close>.\<close>

definition closeConnection :: "driver \<Rightarrow> string option \<Rightarrow> state \<Rightarrow> (js_error + unit) \<times> state" where
  "closeConnection drv tenantId s =
     (let connectionKey = connectionKey_of tenantId
      in case map_of (connections s) connectionKey of
           None \<Rightarrow> (Inr (), s)
         | Some c \<Rightarrow>
             (let s1 = emit_effect (Close c) s;
                  s2 = (case drv_close drv c of
                          None \<Rightarrow> emit_effect (Console_log (Closed_connection connectionKey)) s1
                        | Some error \<Rightarrow>
                            emit_effect
                              (Console_error (Error_closing_connection connectionKey error)) s1)
              in (Inr (), s2\<lparr>connections := AList.delete connectionKey (connections s2)\<rparr>)))"

text \<open>
  Lines 123-137. The loop calls \<^verbatim>\<open>close\<close> on every connection before any promise
  settles; each promise then logs its own outcome (taken here in iteration order) and never
  rejects, so \<^verbatim>\<open>Promise.all\<close> resolves and the Map is cleared.
\<close>

definition settle_close :: "driver \<Rightarrow> string \<times> ref \<Rightarrow> effect" where
  "settle_close drv kc =
     (case drv_close drv (snd kc) of
        None \<Rightarrow> Console_log (Closed_connection (fst kc))
      | Some error \<Rightarrow> Console_error (Error_closing_connection (fst kc) error))"

definition closeAllConnections :: "driver \<Rightarrow> state \<Rightarrow> (js_error + unit) \<times> state" where
  "closeAllConnections drv s =
     (let s1 = s\<lparr>effects := effects s @ map (\<lambda>kc. Close (snd kc)) (connections s)\<rparr>;
          s2 = s1\<lparr>effects := effects s1 @ map (settle_close drv) (connections s1)\<rparr>;
          s3 = s2\<lparr>connections := []\<rparr>
      in (Inr (), emit_effect (Console_log All_database_connections_closed) s3))"

subsection \<open>healthCheck\<close>

datatype health_report =
    Healthy (h_readyState: int) (h_host: string) (h_port: int) (h_dbName: string)
  | Unhealthy (u_error: string) (u_readyState: int)

definition status :: "health_report \<Rightarrow> string" where
  "status r = (case r of Healthy _ _ _ _ \<Rightarrow> ''healthy'' | Unhealthy _ _ \<Rightarrow> ''unhealthy'')"

text \<open>Lines 146-161, the body of the loop for one entry.\<close>

definition probe :: "driver \<Rightarrow> ref \<Rightarrow> state \<Rightarrow> health_report" where
  "probe drv c s =
     (case drv_ping drv c of
        None \<Rightarrow>
          Healthy (readyState (heap s c)) (host (heap s c)) (port (heap s c)) (name (heap s c))
      | Some error \<Rightarrow> Unhealthy (message error) (readyState (heap s c)))"

text \<open>
  Line 144: \<^verbatim>\<open>const health = {}\<close> is a plain object, not a Map. It has its own
  properties and a prototype (\<open>None\<close> stands for \<^verbatim>\<open>Object.prototype\<close>, which it has at
  first).
\<close>

record health_object =
  own_properties :: "string \<rightharpoonup> health_report"
  prototype :: "health_report option"

definition empty_object :: health_object where
  "empty_object = \<lparr>own_properties = Map.empty, prototype = None\<rparr>"

text \<open>
  Lines 148 and 156: \<^verbatim>\<open>health[key] = report\<close>. On a plain object the name
  \<^verbatim>\<open>__proto__\<close> is the inherited accessor: assigning an object to it replaces the
  prototype and creates no own property. Every other name becomes an own property.
\<close>

definition set_property :: "string \<Rightarrow> health_report \<Rightarrow> health_object \<Rightarrow> health_object" where
  "set_property key v obj =
     (if key = ''__proto__'' then obj\<lparr>prototype := Some v\<rparr>
      else obj\<lparr>own_properties := (own_properties obj)(key \<mapsto> v)\<rparr>)"

fun health_loop ::
  "driver \<Rightarrow> (string \<times> ref) list \<Rightarrow> health_object \<Rightarrow> state \<Rightarrow> health_object \<times> state" where
  "health_loop drv [] health s = (health, s)"
| "health_loop drv ((key, c) # rest) health s =
     (let s1 = emit_effect (Ping c) s
      in health_loop drv rest (set_property key (probe drv c s1) health) s1)"

text \<open>Lines 143-164.\<close>

definition healthCheck :: "driver \<Rightarrow> state \<Rightarrow> (js_error + health_object) \<times> state" where
  "healthCheck drv s =
     (let (health, s1) = health_loop drv (connections s) empty_object s in (Inr health, s1))"

subsection \<open>getConnectionInfo\<close>

record connection_info =
  info_key :: string
  info_readyState :: int
  info_host :: string
  info_port :: int
  info_dbName :: string
  info_collections :: "string list"

text \<open>Lines 171-184; \<open>None\<close> is the \<^verbatim>\<open>null\<close> of line 174.\<close>

definition getConnectionInfo :: "string option \<Rightarrow> state \<Rightarrow> connection_info option \<times> state" where
  "getConnectionInfo tenantId s =
     (let connectionKey = connectionKey_of tenantId
      in case map_of (connections s) connectionKey of
           None \<Rightarrow> (None, s)
         | Some c \<Rightarrow>
             (Some \<lparr>info_key = connectionKey,
                    info_readyState = readyState (heap s c),
                    info_host = host (heap s c),
                    info_port = port (heap s c),
                    info_dbName = name (heap s c),
                    info_collections = (case models (heap s c) of None \<Rightarrow> [] | Some ms \<Rightarrow> ms)\<rparr>,
              s))"

subsection \<open>The life of an instance\<close>

text \<open>
  The states an instance can be in: it is constructed, its methods are called with whatever
  the driver answers, and between calls the driver may emit any event on a connection it
  has handed out or change that connection's readiness.
\<close>

inductive reachable :: "state \<Rightarrow> bool" where
  constructed: "reachable (new_ConnectionsContext env)"
| called_getConnection: "reachable s \<Longrightarrow> reachable (snd (getConnection drv tenantId s))"
| called_getActiveConnections: "reachable s \<Longrightarrow> reachable (snd (getActiveConnections s))"
| called_closeConnection: "reachable s \<Longrightarrow> reachable (snd (closeConnection drv tenantId s))"
| called_closeAllConnections: "reachable s \<Longrightarrow> reachable (snd (closeAllConnections drv s))"
| called_healthCheck: "reachable s \<Longrightarrow> reachable (snd (healthCheck drv s))"
| called_getConnectionInfo: "reachable s \<Longrightarrow> reachable (snd (getConnectionInfo tenantId s))"
| driver_emits: "reachable s \<Longrightarrow> c < next_ref s \<Longrightarrow> reachable (emit c ev arg s)"
| driver_readyState: "reachable s \<Longrightarrow> c < next_ref s \<Longrightarrow> reachable (set_readyState c v s)"

text \<open>
  What holds of the cache in every such state: keys and connections are not repeated, every
  cached connection has been handed out, carries the two evicting listeners of its own key,
  and has not emitted \<^verbatim>\<open>error\<close> or \<^verbatim>\<open>disconnected\<close>; only connections that were handed
  out have emitted anything.
\<close>

definition cache_inv :: "state \<Rightarrow> bool" where
  "cache_inv s \<longleftrightarrow>
     distinct (map fst (connections s)) \<and> distinct (map snd (connections s))
     \<and> (\<forall>kc \<in> set (connections s).
           snd kc < next_ref s
           \<and> (''error'', EvictOnError (fst kc)) \<in> set (listeners (heap s (snd kc)))
           \<and> (''disconnected'', EvictOnDisconnected (fst kc)) \<in> set (listeners (heap s (snd kc)))
           \<and> Emit (snd kc) ''error'' \<notin> set (effects s)
           \<and> Emit (snd kc) ''disconnected'' \<notin> set (effects s))
     \<and> (\<forall>e \<in> set (effects s). \<forall>c ev. e = Emit c ev \<longrightarrow> c < next_ref s)"

text \<open>
  What holds of the Map objects: the Map of the instance has been allocated, and no Map
  object lies at or beyond the next free address.
\<close>

definition store_ok :: "state \<Rightarrow> bool" where
  "store_ok s \<longleftrightarrow>
     connections_addr s < next_map s \<and> (\<forall>a. next_map s \<le> a \<longrightarrow> map_store s a = None)"

subsection \<open>A cluster to run the methods on\<close>

text \<open>
  Base address \<^verbatim>\<open>mongodb+srv://cluster\<close>, default database \<^verbatim>\<open>app\<close>; a driver that
  always succeeds (it names a connection after the last segment of its address), one that
  always fails, and one whose \<^verbatim>\<open>close\<close> and \<^verbatim>\<open>ping\<close> fail on
  the second connection it handed out.
\<close>

definition example_env :: "string \<rightharpoonup> string" where
  "example_env =
     [''MONGODB_URI'' \<mapsto> ''mongodb+srv://cluster'', ''MAIN_DB_NAME'' \<mapsto> ''app'']"

definition drv_ok :: driver where
  "drv_ok =
     \<lparr>drv_createConnection =
        (\<lambda>uri opts. Inr \<lparr>readyState = 1, host = ''cluster'', port = 27017,
                          name = rev (takeWhile (\<lambda>ch. ch \<noteq> CHR ''/'') (rev uri)),
                          models = None, listeners = []\<rparr>),
      drv_close = (\<lambda>c. None),
      drv_ping = (\<lambda>c. None)\<rparr>"

definition drv_fail :: driver where
  "drv_fail =
     \<lparr>drv_createConnection = (\<lambda>uri opts. Inl (JsError ''boom'')),
      drv_close = (\<lambda>c. Some (JsError ''close failed'')),
      drv_ping = (\<lambda>c. Some (JsError ''ping failed''))\<rparr>"

definition drv_flaky :: driver where
  "drv_flaky =
     \<lparr>drv_createConnection = drv_createConnection drv_ok,
      drv_close = (\<lambda>c. if c = 1 then Some (JsError ''close failed'') else None),
      drv_ping = (\<lambda>c. if c = 1 then Some (JsError ''ping failed'') else None)\<rparr>"

definition s0 :: state where
  "s0 = new_ConnectionsContext example_env"

definition s1 :: state where
  "s1 = snd (getConnection drv_ok (Some ''t1'') s0)"

definition s2 :: state where
  "s2 = snd (getConnection drv_ok (Some ''t2'') s1)"

definition s3 :: state where
  "s3 = snd (getConnection drv_ok (Some ''t3'') s2)"


text \<open>A tenant whose key is \<^verbatim>\<open>__proto__\<close>, connected after \<^verbatim>\<open>t1\<close>.\<close>

definition s_proto :: state where
  "s_proto = snd (getConnection drv_ok (Some ''__proto__'') s1)"

section \<open>Properties\<close>

subsection \<open>Facts about the steps\<close>

lemma getConnection_unfold:
  "getConnection drv tenantId s =
     (case map_of (connections s) (connectionKey_of tenantId) of
        Some c \<Rightarrow>
          if readyState (heap s c) = 1 then (Inr c, s)
          else connect drv tenantId (connectionKey_of tenantId)
                 (s\<lparr>connections := AList.delete (connectionKey_of tenantId) (connections s)\<rparr>)
      | None \<Rightarrow> connect drv tenantId (connectionKey_of tenantId) s)"
  by (simp add: getConnection_def Let_def)

lemma connect_fst:
  "fst (connect drv tenantId k s) =
     (case drv_createConnection drv
             (baseConnectionString s @ ''/'' @ dbName_of (mainDbName s) tenantId)
             (connectionOptions s) of
        Inr obj \<Rightarrow> Inr (next_ref s)
      | Inl error \<Rightarrow> Inl (JsError (''Database connection failed: '' @ message error)))"
  by (simp add: connect_def alloc_def emit_effect_def Let_def split: sum.split)

lemma connect_connections:
  "connections (snd (connect drv tenantId k s)) =
     (case drv_createConnection drv
             (baseConnectionString s @ ''/'' @ dbName_of (mainDbName s) tenantId)
             (connectionOptions s) of
        Inr obj \<Rightarrow> AList.update k (next_ref s) (connections s)
      | Inl error \<Rightarrow> connections s)"
  by (simp add: connect_def alloc_def emit_effect_def setupConnectionListeners_def on_def Let_def
      split: sum.split)

lemma connect_effects:
  "effects (snd (connect drv tenantId k s)) =
     effects s @
     [CreateConnection (baseConnectionString s @ ''/'' @ dbName_of (mainDbName s) tenantId)
        (connectionOptions s),
      (case drv_createConnection drv
              (baseConnectionString s @ ''/'' @ dbName_of (mainDbName s) tenantId)
              (connectionOptions s) of
         Inr obj \<Rightarrow> Console_log (Connected_to_database (dbName_of (mainDbName s) tenantId))
       | Inl error \<Rightarrow> Console_error (Failed_to_connect k error))]"
  by (simp add: connect_def alloc_def emit_effect_def setupConnectionListeners_def on_def Let_def
      split: sum.split)

lemma connect_heap:
  "heap (snd (connect drv tenantId k s)) =
     (case drv_createConnection drv
             (baseConnectionString s @ ''/'' @ dbName_of (mainDbName s) tenantId)
             (connectionOptions s) of
        Inr obj \<Rightarrow>
          (heap s)(next_ref s := obj\<lparr>listeners := listeners obj @
             [(''connected'', LogConnected k), (''error'', EvictOnError k),
              (''disconnected'', EvictOnDisconnected k), (''reconnected'', LogReconnected k)]\<rparr>)
      | Inl error \<Rightarrow> heap s)"
  by (simp add: connect_def alloc_def emit_effect_def setupConnectionListeners_def on_def Let_def
      split: sum.split)

lemma connect_next_ref:
  "next_ref (snd (connect drv tenantId k s)) =
     (case drv_createConnection drv
             (baseConnectionString s @ ''/'' @ dbName_of (mainDbName s) tenantId)
             (connectionOptions s) of
        Inr obj \<Rightarrow> Suc (next_ref s)
      | Inl error \<Rightarrow> next_ref s)"
  by (simp add: connect_def alloc_def emit_effect_def setupConnectionListeners_def on_def Let_def
      split: sum.split)

lemma connect_config:
  "baseConnectionString (snd (connect drv tenantId k s)) = baseConnectionString s"
  "mainDbName (snd (connect drv tenantId k s)) = mainDbName s"
  "connectionOptions (snd (connect drv tenantId k s)) = connectionOptions s"
  by (simp_all add: connect_def alloc_def emit_effect_def setupConnectionListeners_def on_def
      Let_def split: sum.split)

lemma delete_absent: "map_of al k = None \<Longrightarrow> AList.delete k al = al"
  by (induction al) (auto split: if_splits)

lemma update_absent: "map_of al k = None \<Longrightarrow> AList.update k v al = al @ [(k, v)]"
  by (induction al) (auto split: if_splits)

subsection \<open>What every reachable state satisfies\<close>

lemma run_listeners_connections:
  "connections (run_listeners ls ev arg s) =
     filter (\<lambda>kc. (ev, EvictOnError (fst kc)) \<notin> set ls \<and> (ev, EvictOnDisconnected (fst kc)) \<notin> set ls)
       (connections s)"
proof (induction ls arbitrary: s)
  case Nil
  then show ?case by simp
next
  case (Cons l ls)
  obtain n cb where l: "l = (n, cb)" by (cases l)
  show ?case
  proof (cases "n = ev")
    case False
    with l Cons show ?thesis by auto
  next
    case True
    with l Cons show ?thesis
      by (cases cb) (auto simp: emit_effect_def AList.delete_eq Let_def intro!: filter_cong)
  qed
qed

lemma run_listeners_frame:
  "heap (run_listeners ls ev arg s) = heap s"
  "next_ref (run_listeners ls ev arg s) = next_ref s"
proof (induction ls arbitrary: s)
  case Nil
  { case 1 show ?case by simp }
  { case 2 show ?case by simp }
next
  case (Cons l ls)
  obtain n cb where l: "l = (n, cb)" by (cases l)
  { case 1 show ?case using l Cons.IH(1) by (cases cb) (simp_all add: emit_effect_def Let_def) }
  { case 2 show ?case using l Cons.IH(2) by (cases cb) (simp_all add: emit_effect_def Let_def) }
qed

lemma run_listeners_effects:
  "Emit c e \<in> set (effects (run_listeners ls ev arg s)) \<longleftrightarrow> Emit c e \<in> set (effects s)"
proof (induction ls arbitrary: s)
  case Nil
  then show ?case by simp
next
  case (Cons l ls)
  obtain n cb where l: "l = (n, cb)" by (cases l)
  show ?case using l Cons by (cases cb) (simp_all add: emit_effect_def Let_def)
qed


lemma cache_inv_constructed: "cache_inv (new_ConnectionsContext env)"
  by (simp add: cache_inv_def new_ConnectionsContext_def)

lemma cache_inv_filter:
  assumes "cache_inv s"
  shows "cache_inv (s\<lparr>connections := filter P (connections s)\<rparr>)"
  using assms by (auto simp: cache_inv_def distinct_map_filter)

lemma cache_inv_delete:
  "cache_inv s \<Longrightarrow> cache_inv (s\<lparr>connections := AList.delete k (connections s)\<rparr>)"
  by (simp add: AList.delete_eq cache_inv_filter)

lemma cache_inv_effects:
  assumes "cache_inv s" and "\<forall>e \<in> set es. \<forall>c ev. e \<noteq> Emit c ev"
  shows "cache_inv (s\<lparr>effects := effects s @ es\<rparr>)"
  using assms by (auto simp: cache_inv_def)

lemma cache_inv_emit_effect:
  "cache_inv s \<Longrightarrow> \<forall>c ev. e \<noteq> Emit c ev \<Longrightarrow> cache_inv (emit_effect e s)"
  using cache_inv_effects [of s "[e]"] by (simp add: emit_effect_def)

lemma cache_inv_connect:
  assumes inv: "cache_inv s" and absent: "map_of (connections s) k = None"
  shows "cache_inv (snd (connect drv tenantId k s))"
proof (cases "drv_createConnection drv
                (baseConnectionString s @ ''/'' @ dbName_of (mainDbName s) tenantId)
                (connectionOptions s)")
  case (Inl error)
  then have "snd (connect drv tenantId k s) =
      s\<lparr>effects := effects s @
          [CreateConnection (baseConnectionString s @ ''/'' @ dbName_of (mainDbName s) tenantId)
             (connectionOptions s),
           Console_error (Failed_to_connect k error)]\<rparr>"
    by (simp add: connect_def emit_effect_def Let_def)
  with inv show ?thesis by (simp add: cache_inv_effects)
next
  case (Inr obj)
  let ?s' = "snd (connect drv tenantId k s)"
  from Inr have c: "connections ?s' = connections s @ [(k, next_ref s)]"
    by (simp add: connect_connections update_absent [OF absent])
  from Inr have h: "heap ?s' = (heap s)(next_ref s := obj\<lparr>listeners := listeners obj @
             [(''connected'', LogConnected k), (''error'', EvictOnError k),
              (''disconnected'', EvictOnDisconnected k), (''reconnected'', LogReconnected k)]\<rparr>)"
    by (simp add: connect_heap)
  from Inr have n: "next_ref ?s' = Suc (next_ref s)"
    by (simp add: connect_next_ref)
  from Inr have e: "set (effects ?s') = set (effects s) \<union>
      {CreateConnection (baseConnectionString s @ ''/'' @ dbName_of (mainDbName s) tenantId)
         (connectionOptions s),
       Console_log (Connected_to_database (dbName_of (mainDbName s) tenantId))}"
    by (auto simp: connect_effects)
  from absent have k: "k \<notin> fst ` set (connections s)"
    by (simp add: map_of_eq_None_iff)
  from inv have fresh: "next_ref s \<notin> snd ` set (connections s)"
    by (auto simp: cache_inv_def)
  from inv k fresh show ?thesis
    unfolding cache_inv_def c h n e
    by (auto simp: less_Suc_eq)
qed

lemma cache_inv_getConnection:
  assumes "cache_inv s"
  shows "cache_inv (snd (getConnection drv tenantId s))"
proof (cases "map_of (connections s) (connectionKey_of tenantId)")
  case None
  with assms show ?thesis by (simp add: getConnection_unfold cache_inv_connect)
next
  case (Some c)
  have "cache_inv (snd (connect drv tenantId (connectionKey_of tenantId)
          (s\<lparr>connections := AList.delete (connectionKey_of tenantId) (connections s)\<rparr>)))"
    by (rule cache_inv_connect) (simp_all add: assms cache_inv_delete AList.delete_conv')
  with Some assms show ?thesis by (simp add: getConnection_unfold)
qed

lemma cache_inv_closeConnection:
  assumes "cache_inv s"
  shows "cache_inv (snd (closeConnection drv tenantId s))"
proof (cases "map_of (connections s) (connectionKey_of tenantId)")
  case None
  with assms show ?thesis by (simp add: closeConnection_def Let_def)
next
  case (Some c)
  have "cache_inv (emit_effect e (emit_effect (Close c) s))" if "\<forall>c ev. e \<noteq> Emit c ev" for e
    using that assms by (simp add: cache_inv_emit_effect)
  then have "cache_inv ((emit_effect e (emit_effect (Close c) s))
      \<lparr>connections := AList.delete k (connections (emit_effect e (emit_effect (Close c) s)))\<rparr>)"
    if "\<forall>c ev. e \<noteq> Emit c ev" for e k
    using that by (simp add: cache_inv_delete)
  with Some show ?thesis
    by (simp add: closeConnection_def Let_def split: option.split)
qed

lemma cache_inv_closeAllConnections:
  assumes "cache_inv s"
  shows "cache_inv (snd (closeAllConnections drv s))"
  using assms
  by (auto simp: closeAllConnections_def cache_inv_def emit_effect_def settle_close_def Let_def
      split: option.splits)

lemma health_loop_snd:
  "snd (health_loop drv cs health s) = s\<lparr>effects := effects s @ map (\<lambda>kc. Ping (snd kc)) cs\<rparr>"
  by (induction cs arbitrary: health s) (auto simp: emit_effect_def Let_def)

lemma healthCheck_snd:
  "snd (healthCheck drv s) =
     s\<lparr>effects := effects s @ map (\<lambda>kc. Ping (snd kc)) (connections s)\<rparr>"
  by (simp add: healthCheck_def case_prod_beta health_loop_snd)

lemma cache_inv_healthCheck:
  "cache_inv s \<Longrightarrow> cache_inv (snd (healthCheck drv s))"
  by (simp add: healthCheck_snd cache_inv_effects)

lemma cache_inv_set_readyState:
  "cache_inv s \<Longrightarrow> cache_inv (set_readyState c v s)"
  by (auto simp: cache_inv_def set_readyState_def)

lemma emit_connections:
  "connections (emit c ev arg s) =
     filter (\<lambda>kc. (ev, EvictOnError (fst kc)) \<notin> set (listeners (heap s c))
                \<and> (ev, EvictOnDisconnected (fst kc)) \<notin> set (listeners (heap s c)))
       (connections s)"
  by (simp add: emit_def run_listeners_connections emit_effect_def)

lemma emit_frame:
  "heap (emit c ev arg s) = heap s" "next_ref (emit c ev arg s) = next_ref s"
  by (simp_all add: emit_def run_listeners_frame emit_effect_def)

lemma emit_effects:
  "Emit c' e \<in> set (effects (emit c ev arg s)) \<longleftrightarrow>
     (c' = c \<and> e = ev) \<or> Emit c' e \<in> set (effects s)"
  by (auto simp: emit_def run_listeners_effects emit_effect_def)

lemma cache_inv_emit:
  assumes inv: "cache_inv s" and c: "c < next_ref s"
  shows "cache_inv (emit c ev arg s)"
  unfolding cache_inv_def
proof (intro conjI ballI allI impI)
  show "distinct (map fst (connections (emit c ev arg s)))"
    using inv by (simp add: emit_connections cache_inv_def distinct_map_filter)
  show "distinct (map snd (connections (emit c ev arg s)))"
    using inv by (simp add: emit_connections cache_inv_def distinct_map_filter)
next
  fix e c' ev'
  assume "e \<in> set (effects (emit c ev arg s))" "e = Emit c' ev'"
  then have "Emit c' ev' \<in> set (effects (emit c ev arg s))" by simp
  with inv c show "c' < next_ref (emit c ev arg s)"
    by (auto simp: emit_effects emit_frame cache_inv_def)
next
  fix kc
  assume kc: "kc \<in> set (connections (emit c ev arg s))"
  then have old: "kc \<in> set (connections s)"
    and kept: "(ev, EvictOnError (fst kc)) \<notin> set (listeners (heap s c))"
              "(ev, EvictOnDisconnected (fst kc)) \<notin> set (listeners (heap s c))"
    by (simp_all add: emit_connections)
  from inv old have p: "snd kc < next_ref s"
      "(''error'', EvictOnError (fst kc)) \<in> set (listeners (heap s (snd kc)))"
      "(''disconnected'', EvictOnDisconnected (fst kc)) \<in> set (listeners (heap s (snd kc)))"
      "Emit (snd kc) ''error'' \<notin> set (effects s)"
      "Emit (snd kc) ''disconnected'' \<notin> set (effects s)"
    by (auto simp: cache_inv_def)
  show "snd kc < next_ref (emit c ev arg s)" using p by (simp add: emit_frame)
  show "(''error'', EvictOnError (fst kc)) \<in> set (listeners (heap (emit c ev arg s) (snd kc)))"
    using p by (simp add: emit_frame)
  show "(''disconnected'', EvictOnDisconnected (fst kc))
          \<in> set (listeners (heap (emit c ev arg s) (snd kc)))"
    using p by (simp add: emit_frame)
  show "Emit (snd kc) ''error'' \<notin> set (effects (emit c ev arg s))"
    using p kept by (auto simp: emit_effects)
  show "Emit (snd kc) ''disconnected'' \<notin> set (effects (emit c ev arg s))"
    using p kept by (auto simp: emit_effects)
qed

subsection \<open>The Map objects\<close>

lemma Map_set_frame:
  "heap (Map_set a k v s) = heap s" "next_ref (Map_set a k v s) = next_ref s"
  "effects (Map_set a k v s) = effects s"
  "connections_addr (Map_set a k v s) = connections_addr s"
  "next_map (Map_set a k v s) = next_map s"
  "baseConnectionString (Map_set a k v s) = baseConnectionString s"
  "mainDbName (Map_set a k v s) = mainDbName s"
  "connectionOptions (Map_set a k v s) = connectionOptions s"
  by (simp_all add: Map_set_def split: option.split)

lemma Map_set_other: "b \<noteq> a \<Longrightarrow> map_store (Map_set a k v s) b = map_store s b"
  by (simp add: Map_set_def split: option.split)

lemma Map_set_connections:
  "a \<noteq> connections_addr s \<Longrightarrow> connections (Map_set a k v s) = connections s"
  by (simp add: Map_set_def split: option.split)

lemma active_loop_frame:
  "heap (active_loop cs a s) = heap s \<and> next_ref (active_loop cs a s) = next_ref s
   \<and> effects (active_loop cs a s) = effects s
   \<and> connections_addr (active_loop cs a s) = connections_addr s
   \<and> next_map (active_loop cs a s) = next_map s
   \<and> baseConnectionString (active_loop cs a s) = baseConnectionString s
   \<and> mainDbName (active_loop cs a s) = mainDbName s
   \<and> connectionOptions (active_loop cs a s) = connectionOptions s"
  by (induction cs a s rule: active_loop.induct) (simp_all add: Map_set_frame)

lemma active_loop_other: "b \<noteq> a \<Longrightarrow> map_store (active_loop cs a s) b = map_store s b"
  by (induction cs a s rule: active_loop.induct) (simp_all add: Map_set_other)

lemma active_loop_connections:
  "a \<noteq> connections_addr s \<Longrightarrow> connections (active_loop cs a s) = connections s"
  by (induction cs a s rule: active_loop.induct)
    (simp_all add: Map_set_connections Map_set_frame)

lemma active_loop_store:
  "a \<noteq> connections_addr s \<Longrightarrow> map_store s a = Some acc \<Longrightarrow> distinct (map fst cs) \<Longrightarrow>
   fst ` set cs \<inter> fst ` set acc = {} \<Longrightarrow>
   active_loop cs a s =
     s\<lparr>map_store := (map_store s)(a \<mapsto> acc @ filter (\<lambda>kc. readyState (heap s (snd kc)) = 1) cs)\<rparr>"
proof (induction cs arbitrary: s acc)
  case Nil
  then show ?case by (simp add: map_upd_triv)
next
  case (Cons kc cs)
  obtain key c where kc: "kc = (key, c)" by (cases kc)
  from Cons.prems kc have absent: "map_of acc key = None"
    by (auto simp: map_of_eq_None_iff)
  from Cons.prems kc have d: "distinct (map fst cs)" and
    i1: "fst ` set cs \<inter> fst ` set acc = {}" and
    i2: "fst ` set cs \<inter> fst ` set (acc @ [(key, c)]) = {}"
    by auto
  show ?case
  proof (cases "readyState (heap s c) = 1")
    case False
    with Cons.IH [OF Cons.prems(1,2) d i1] kc show ?thesis by simp
  next
    case True
    let ?s' = "s\<lparr>map_store := (map_store s)(a \<mapsto> acc @ [(key, c)])\<rparr>"
    from Cons.prems(1,2) have set: "Map_set a key c s = ?s'"
      by (simp add: Map_set_def update_absent [OF absent])
    have "active_loop (kc # cs) a s = active_loop cs a ?s'"
      using True kc set by simp
    also have "\<dots> =
        ?s'\<lparr>map_store := (map_store ?s')(a \<mapsto> (acc @ [(key, c)]) @
                 filter (\<lambda>kc. readyState (heap ?s' (snd kc)) = 1) cs)\<rparr>"
      by (rule Cons.IH [OF _ _ d i2]) (simp_all add: Cons.prems(1))
    also have "\<dots> =
        s\<lparr>map_store := (map_store s)(a \<mapsto> acc @
             filter (\<lambda>kc. readyState (heap s (snd kc)) = 1) (kc # cs))\<rparr>"
      using True kc by simp
    finally show ?thesis .
  qed
qed

lemma getActiveConnections_eq:
  assumes "connections_addr s < next_map s" and "distinct (map fst (connections s))"
  shows "getActiveConnections s =
     (next_map s,
      s\<lparr>map_store := (map_store s)(next_map s \<mapsto>
           filter (\<lambda>kc. readyState (heap s (snd kc)) = 1) (connections s)),
        next_map := Suc (next_map s)\<rparr>)"
proof -
  let ?s1 = "s\<lparr>map_store := (map_store s)(next_map s \<mapsto> []), next_map := Suc (next_map s)\<rparr>"
  have "active_loop (connections s) (next_map s) ?s1 =
      ?s1\<lparr>map_store := (map_store ?s1)(next_map s \<mapsto> [] @
               filter (\<lambda>kc. readyState (heap ?s1 (snd kc)) = 1) (connections s))\<rparr>"
    using assms by (intro active_loop_store) simp_all
  then show ?thesis
    by (simp add: getActiveConnections_def new_Map_def)
qed

lemma getActiveConnections_frame:
  assumes "connections_addr s < next_map s"
  shows "connections (snd (getActiveConnections s)) = connections s"
    and "heap (snd (getActiveConnections s)) = heap s"
    and "next_ref (snd (getActiveConnections s)) = next_ref s"
    and "effects (snd (getActiveConnections s)) = effects s"
  using assms
  by (simp_all add: getActiveConnections_def new_Map_def active_loop_frame
      active_loop_connections)

lemma getActiveConnections_store:
  "connections_addr (snd (getActiveConnections s)) = connections_addr s"
  "next_map (snd (getActiveConnections s)) = Suc (next_map s)"
  "b \<noteq> next_map s \<Longrightarrow> map_store (snd (getActiveConnections s)) b = map_store s b"
  by (simp_all add: getActiveConnections_def new_Map_def active_loop_frame active_loop_other)

lemma connect_store:
  "connections_addr (snd (connect drv tenantId k s)) = connections_addr s"
  "map_store (snd (connect drv tenantId k s)) = map_store s"
  "next_map (snd (connect drv tenantId k s)) = next_map s"
  by (simp_all add: connect_def alloc_def emit_effect_def setupConnectionListeners_def on_def
      Let_def split: sum.split)

lemma getConnection_store:
  "connections_addr (snd (getConnection drv tenantId s)) = connections_addr s"
  "map_store (snd (getConnection drv tenantId s)) = map_store s"
  "next_map (snd (getConnection drv tenantId s)) = next_map s"
  by (simp_all add: getConnection_unfold connect_store split: option.split)

lemma closeConnection_store:
  "connections_addr (snd (closeConnection drv tenantId s)) = connections_addr s"
  "map_store (snd (closeConnection drv tenantId s)) = map_store s"
  "next_map (snd (closeConnection drv tenantId s)) = next_map s"
  by (simp_all add: closeConnection_def emit_effect_def Let_def split: option.split)

lemma closeAllConnections_store:
  "connections_addr (snd (closeAllConnections drv s)) = connections_addr s"
  "map_store (snd (closeAllConnections drv s)) = map_store s"
  "next_map (snd (closeAllConnections drv s)) = next_map s"
  by (simp_all add: closeAllConnections_def emit_effect_def Let_def)

lemma run_listeners_store:
  "connections_addr (run_listeners ls ev arg s) = connections_addr s
   \<and> map_store (run_listeners ls ev arg s) = map_store s
   \<and> next_map (run_listeners ls ev arg s) = next_map s"
proof (induction ls arbitrary: s)
  case Nil
  then show ?case by simp
next
  case (Cons l ls)
  obtain n cb where l: "l = (n, cb)" by (cases l)
  show ?case using l Cons by (cases cb) (simp_all add: emit_effect_def Let_def)
qed

lemma emit_store:
  "connections_addr (emit c ev arg s) = connections_addr s"
  "map_store (emit c ev arg s) = map_store s"
  "next_map (emit c ev arg s) = next_map s"
  by (simp_all add: emit_def run_listeners_store emit_effect_def)

lemma reachable_store_ok: "reachable s \<Longrightarrow> store_ok s"
proof (induction rule: reachable.induct)
  case (constructed env)
  show ?case by (simp add: store_ok_def new_ConnectionsContext_def)
next
  case (called_getConnection s drv tenantId)
  then show ?case by (simp add: store_ok_def getConnection_store)
next
  case (called_getActiveConnections s)
  then show ?case by (simp add: store_ok_def getActiveConnections_store)
next
  case (called_closeConnection s drv tenantId)
  then show ?case by (simp add: store_ok_def closeConnection_store)
next
  case (called_closeAllConnections s drv)
  then show ?case by (simp add: store_ok_def closeAllConnections_store)
next
  case (called_healthCheck s drv)
  then show ?case by (simp add: store_ok_def healthCheck_snd)
next
  case (called_getConnectionInfo s tenantId)
  then show ?case by (simp add: getConnectionInfo_def Let_def split: option.split)
next
  case (driver_emits s c ev arg)
  then show ?case by (simp add: store_ok_def emit_store)
next
  case (driver_readyState s c v)
  then show ?case by (simp add: store_ok_def set_readyState_def)
qed

lemma cache_inv_getActiveConnections:
  assumes "cache_inv s" and "store_ok s"
  shows "cache_inv (snd (getActiveConnections s))"
proof -
  from assms(2) have a: "connections_addr s < next_map s" by (simp add: store_ok_def)
  from assms(1) show ?thesis
    by (simp add: cache_inv_def getActiveConnections_frame [OF a])
qed

lemma reachable_cache_inv: "reachable s \<Longrightarrow> cache_inv s"
proof (induction rule: reachable.induct)
  case (constructed env)
  show ?case by (rule cache_inv_constructed)
next
  case (called_getConnection s drv tenantId)
  then show ?case by (simp add: cache_inv_getConnection)
next
  case (called_getActiveConnections s)
  then show ?case by (simp add: cache_inv_getActiveConnections reachable_store_ok)
next
  case (called_closeConnection s drv tenantId)
  then show ?case by (simp add: cache_inv_closeConnection)
next
  case (called_closeAllConnections s drv)
  then show ?case by (simp add: cache_inv_closeAllConnections)
next
  case (called_healthCheck s drv)
  then show ?case by (simp add: cache_inv_healthCheck)
next
  case (called_getConnectionInfo s tenantId)
  then show ?case by (simp add: getConnectionInfo_def Let_def split: option.split)
next
  case (driver_emits s c ev arg)
  then show ?case by (simp add: cache_inv_emit)
next
  case (driver_readyState s c v)
  then show ?case by (simp add: cache_inv_set_readyState)
qed

lemma run_listeners_config:
  "baseConnectionString (run_listeners ls ev arg s) = baseConnectionString s"
  "mainDbName (run_listeners ls ev arg s) = mainDbName s"
  "connectionOptions (run_listeners ls ev arg s) = connectionOptions s"
proof (induction ls arbitrary: s)
  case Nil
  { case 1 show ?case by simp }
  { case 2 show ?case by simp }
  { case 3 show ?case by simp }
next
  case (Cons l ls)
  obtain n cb where l: "l = (n, cb)" by (cases l)
  { case 1 show ?case using l Cons.IH(1) by (cases cb) (simp_all add: emit_effect_def Let_def) }
  { case 2 show ?case using l Cons.IH(2) by (cases cb) (simp_all add: emit_effect_def Let_def) }
  { case 3 show ?case using l Cons.IH(3) by (cases cb) (simp_all add: emit_effect_def Let_def) }
qed

lemma emit_config:
  "baseConnectionString (emit c ev arg s) = baseConnectionString s"
  "mainDbName (emit c ev arg s) = mainDbName s"
  "connectionOptions (emit c ev arg s) = connectionOptions s"
  by (simp_all add: emit_def run_listeners_config emit_effect_def)

lemma map_of_filter_snd:
  "distinct (map fst xs) \<Longrightarrow>
   map_of (filter (\<lambda>kc. Q (snd kc)) xs) k =
     (case map_of xs k of None \<Rightarrow> None | Some c \<Rightarrow> if Q c then Some c else None)"
proof (induction xs)
  case Nil
  then show ?case by simp
next
  case (Cons x xs)
  then show ?case
    by (cases x) (auto simp: map_of_eq_None_iff image_iff split: option.splits)
qed

lemma getConnection_config:
  "baseConnectionString (snd (getConnection drv tenantId s)) = baseConnectionString s"
  "mainDbName (snd (getConnection drv tenantId s)) = mainDbName s"
  "connectionOptions (snd (getConnection drv tenantId s)) = connectionOptions s"
  by (simp_all add: getConnection_unfold connect_config split: option.split)

lemma getConnection_miss:
  assumes "\<forall>c. map_of (connections s) (connectionKey_of tenantId) = Some c
             \<longrightarrow> readyState (heap s c) \<noteq> 1"
  shows "getConnection drv tenantId s =
     connect drv tenantId (connectionKey_of tenantId)
       (s\<lparr>connections := AList.delete (connectionKey_of tenantId) (connections s)\<rparr>)"
proof (cases "map_of (connections s) (connectionKey_of tenantId)")
  case None
  then show ?thesis by (simp add: getConnection_unfold delete_absent)
next
  case (Some c)
  with assms show ?thesis by (simp add: getConnection_unfold)
qed

lemma probe_effects: "probe drv c (emit_effect e s) = probe drv c s"
  by (simp add: probe_def emit_effect_def split: option.split)

lemma health_loop_own:
  "own_properties (fst (health_loop drv cs health s)) k =
     (if k = ''__proto__'' then own_properties health k
      else case map_of (rev cs) k of
             None \<Rightarrow> own_properties health k
           | Some c \<Rightarrow> Some (probe drv c s))"
proof (induction cs arbitrary: health s)
  case Nil
  then show ?case by simp
next
  case (Cons kc cs)
  obtain key c where kc: "kc = (key, c)" by (cases kc)
  let ?h = "set_property key (probe drv c s) health"
  have "own_properties (fst (health_loop drv (kc # cs) health s)) k =
      own_properties (fst (health_loop drv cs ?h (emit_effect (Ping c) s))) k"
    by (simp add: kc Let_def probe_effects)
  also have "\<dots> = (if k = ''__proto__'' then own_properties ?h k
                    else case map_of (rev cs) k of
                           None \<Rightarrow> own_properties ?h k
                         | Some c' \<Rightarrow> Some (probe drv c' (emit_effect (Ping c) s)))"
    by (rule Cons.IH)
  also have "\<dots> = (if k = ''__proto__'' then own_properties health k
                    else case map_of (rev (kc # cs)) k of
                           None \<Rightarrow> own_properties health k
                         | Some c' \<Rightarrow> Some (probe drv c' s))"
    by (simp add: kc probe_effects map_add_def set_property_def split: option.split)
  finally show ?case .
qed

lemma map_of_rev_distinct: "distinct (map fst xs) \<Longrightarrow> map_of (rev xs) = map_of xs"
  by (simp add: map_of_inject_set rev_map [symmetric])

subsection \<open>The example cluster, evaluated\<close>

lemma connectionKey_examples:
  "connectionKey_of (Some ''t1'') = ''t1''" "connectionKey_of (Some ''t2'') = ''t2''"
  "connectionKey_of (Some ''t3'') = ''t3''" "connectionKey_of (Some ''main'') = ''main''"
  "connectionKey_of None = ''main''"
  by (simp_all add: connectionKey_of_def)

lemma s0_connections: "connections s0 = []"
  by (simp add: s0_def new_ConnectionsContext_def)

lemma s0_next_ref: "next_ref s0 = 0"
  by (simp add: s0_def new_ConnectionsContext_def)

lemma s0_effects: "effects s0 = []"
  by (simp add: s0_def new_ConnectionsContext_def)

lemma s0_config:
  "baseConnectionString s0 = ''mongodb+srv://cluster''" "mainDbName s0 = ''app''"
  by (simp_all add: s0_def new_ConnectionsContext_def example_env_def env_or_def)

lemma s1_connections: "connections s1 = [(''t1'', 0)]"
  by (simp add: s1_def getConnection_unfold connectionKey_examples s0_connections
      connect_connections drv_ok_def s0_next_ref)

lemma s1_next_ref: "next_ref s1 = 1"
  by (simp add: s1_def getConnection_unfold connectionKey_examples s0_connections
      connect_next_ref drv_ok_def s0_next_ref)

lemma s1_ready: "readyState (heap s1 0) = 1"
  by (simp add: s1_def getConnection_unfold connectionKey_examples s0_connections
      connect_heap drv_ok_def s0_next_ref)

lemma getConnection_s0: "getConnection drv_ok (Some ''t1'') s0 = (Inr 0, s1)"
proof -
  have "fst (getConnection drv_ok (Some ''t1'') s0) = Inr 0"
    by (simp add: getConnection_unfold connectionKey_examples s0_connections connect_fst
        drv_ok_def s0_next_ref)
  then show ?thesis
    by (simp add: s1_def prod_eq_iff)
qed

lemma s1_config:
  "baseConnectionString s1 = ''mongodb+srv://cluster''" "mainDbName s1 = ''app''"
  by (simp_all add: s1_def getConnection_config s0_config)

lemma reachable_s0: "reachable s0"
  unfolding s0_def by (rule reachable.constructed)

lemma reachable_s1: "reachable s1"
  unfolding s1_def by (rule reachable.called_getConnection [OF reachable_s0])

lemma getConnection_new:
  assumes "map_of (connections s) (connectionKey_of tenantId) = None"
  shows "connections (snd (getConnection drv_ok tenantId s)) =
           connections s @ [(connectionKey_of tenantId, next_ref s)]"
    and "next_ref (snd (getConnection drv_ok tenantId s)) = Suc (next_ref s)"
    and "heap (snd (getConnection drv_ok tenantId s)) =
           (heap s)(next_ref s :=
              \<lparr>readyState = 1, host = ''cluster'', port = 27017,
               name = rev (takeWhile (\<lambda>ch. ch \<noteq> CHR ''/'')
                        (rev (baseConnectionString s @ ''/'' @ dbName_of (mainDbName s) tenantId))),
               models = None,
               listeners =
                 [(''connected'', LogConnected (connectionKey_of tenantId)),
                  (''error'', EvictOnError (connectionKey_of tenantId)),
                  (''disconnected'', EvictOnDisconnected (connectionKey_of tenantId)),
                  (''reconnected'', LogReconnected (connectionKey_of tenantId))]\<rparr>)"
  using assms
  by (simp_all add: getConnection_unfold connect_connections connect_next_ref connect_heap
      drv_ok_def update_absent)

lemma s2_connections: "connections s2 = [(''t1'', 0), (''t2'', 1)]"
  by (simp add: s2_def getConnection_new connectionKey_examples s1_connections s1_next_ref)

lemma s2_next_ref: "next_ref s2 = 2"
  by (simp add: s2_def getConnection_new connectionKey_examples s1_connections s1_next_ref)

lemma s3_connections: "connections s3 = [(''t1'', 0), (''t2'', 1), (''t3'', 2)]"
  by (simp add: s3_def getConnection_new connectionKey_examples s2_connections s2_next_ref)

lemma s2_config:
  "baseConnectionString s2 = ''mongodb+srv://cluster''" "mainDbName s2 = ''app''"
  by (simp_all add: s2_def getConnection_config s1_config)

lemma s1_heap:
  "heap s1 0 =
     \<lparr>readyState = 1, host = ''cluster'', port = 27017, name = ''app_t1'',
      models = None,
      listeners = [(''connected'', LogConnected ''t1''), (''error'', EvictOnError ''t1''),
                   (''disconnected'', EvictOnDisconnected ''t1''),
                   (''reconnected'', LogReconnected ''t1'')]\<rparr>"
  by (simp add: s1_def getConnection_new connectionKey_examples s0_connections s0_next_ref
      s0_config dbName_of_def)

lemma s2_heap:
  "heap s2 0 = heap s1 0"
  "heap s2 (Suc 0) =
     \<lparr>readyState = 1, host = ''cluster'', port = 27017, name = ''app_t2'',
      models = None,
      listeners = [(''connected'', LogConnected ''t2''), (''error'', EvictOnError ''t2''),
                   (''disconnected'', EvictOnDisconnected ''t2''),
                   (''reconnected'', LogReconnected ''t2'')]\<rparr>"
  by (simp_all add: s2_def getConnection_new connectionKey_examples s1_connections s1_next_ref
      s1_config dbName_of_def)

lemma s3_heap:
  "heap s3 0 = heap s1 0" "heap s3 (Suc 0) = heap s2 (Suc 0)"
  "heap s3 2 =
     \<lparr>readyState = 1, host = ''cluster'', port = 27017, name = ''app_t3'',
      models = None,
      listeners = [(''connected'', LogConnected ''t3''), (''error'', EvictOnError ''t3''),
                   (''disconnected'', EvictOnDisconnected ''t3''),
                   (''reconnected'', LogReconnected ''t3'')]\<rparr>"
  by (simp_all add: s3_def getConnection_new connectionKey_examples s2_connections s2_next_ref
      s2_config s2_heap dbName_of_def)

lemma s0_store: "connections_addr s0 = 0" "map_store s0 = Map.empty" "next_map s0 = 1"
  by (simp_all add: s0_def new_ConnectionsContext_def)

lemma s3_store: "connections_addr s3 = 0" "map_store s3 = Map.empty" "next_map s3 = 1"
  by (simp_all add: s3_def s2_def s1_def getConnection_store s0_store)

lemma reachable_s3: "reachable s3"
  unfolding s3_def s2_def
  by (intro reachable.called_getConnection reachable_s1)




lemma s_proto_connections: "connections s_proto = [(''t1'', 0), (''__proto__'', Suc 0)]"
  by (simp add: s_proto_def getConnection_new connectionKey_of_def s1_connections s1_next_ref)

lemma s_proto_heap:
  "heap s_proto 0 = heap s1 0"
  "heap s_proto (Suc 0) =
     \<lparr>readyState = 1, host = ''cluster'', port = 27017, name = ''app___proto__'',
      models = None,
      listeners = [(''connected'', LogConnected ''__proto__''),
                   (''error'', EvictOnError ''__proto__''),
                   (''disconnected'', EvictOnDisconnected ''__proto__''),
                   (''reconnected'', LogReconnected ''__proto__'')]\<rparr>"
  by (simp_all add: s_proto_def getConnection_new connectionKey_of_def s1_connections
      s1_next_ref s1_config dbName_of_def)

lemma reachable_s_proto: "reachable s_proto"
  unfolding s_proto_def by (rule reachable.called_getConnection [OF reachable_s1])

subsection \<open>The cache hit and the stale entry\<close>

text \<open>
  C1. If the resolved key has a record whose connection reports \<^verbatim>\<open>readyState\<close> 1,
  \<^verbatim>\<open>getConnection\<close> returns that connection and leaves the whole state as it was (no call
  to the driver, no change to the connection). Hence a second call right after a call that
  returned a ready connection returns the same connection. If the record is not ready, the
  call is the connection attempt run on the state from which the record has been deleted,
  and the only effects are the one \<^verbatim>\<open>createConnection\<close> and a console line: the stale
  connection is not closed.
\<close>

theorem getConnection_cache:
  "(map_of (connections s) (connectionKey_of tenantId) = Some c \<and> readyState (heap s c) = 1
      \<longrightarrow> getConnection drv tenantId s = (Inr c, s))
   \<and> (getConnection drv tenantId s = (Inr c', s') \<and> readyState (heap s' c') = 1
      \<longrightarrow> getConnection drv' tenantId s' = (Inr c', s'))
   \<and> (map_of (connections s) (connectionKey_of tenantId) = Some c \<and> readyState (heap s c) \<noteq> 1
      \<longrightarrow> getConnection drv tenantId s =
            connect drv tenantId (connectionKey_of tenantId)
              (s\<lparr>connections := AList.delete (connectionKey_of tenantId) (connections s)\<rparr>)
          \<and> map_of (AList.delete (connectionKey_of tenantId) (connections s))
                (connectionKey_of tenantId) = None
          \<and> (\<exists>line. effects (snd (getConnection drv tenantId s)) =
                effects s @
                [CreateConnection
                   (baseConnectionString s @ ''/'' @ dbName_of (mainDbName s) tenantId)
                   (connectionOptions s), line]
                \<and> line \<noteq> Close c))"
proof (intro conjI impI)
  assume "map_of (connections s) (connectionKey_of tenantId) = Some c \<and> readyState (heap s c) = 1"
  then show "getConnection drv tenantId s = (Inr c, s)"
    by (simp add: getConnection_unfold)
next
  assume a: "getConnection drv tenantId s = (Inr c', s') \<and> readyState (heap s' c') = 1"
  have "map_of (connections s') (connectionKey_of tenantId) = Some c'"
  proof (cases "\<exists>c. map_of (connections s) (connectionKey_of tenantId) = Some c
                  \<and> readyState (heap s c) = 1")
    case True
    with a show ?thesis by (auto simp: getConnection_unfold)
  next
    case False
    have "\<exists>s2. getConnection drv tenantId s = connect drv tenantId (connectionKey_of tenantId) s2"
    proof (cases "map_of (connections s) (connectionKey_of tenantId)")
      case None
      then show ?thesis by (auto simp: getConnection_unfold)
    next
      case (Some c0)
      with False show ?thesis by (auto simp: getConnection_unfold)
    qed
    then obtain s2
      where g: "getConnection drv tenantId s = connect drv tenantId (connectionKey_of tenantId) s2"
      by blast
    from a g have f: "fst (connect drv tenantId (connectionKey_of tenantId) s2) = Inr c'"
      and s: "snd (connect drv tenantId (connectionKey_of tenantId) s2) = s'" by simp_all
    from f s show ?thesis
      using connect_connections [of drv tenantId "connectionKey_of tenantId" s2]
      by (auto simp: connect_fst AList.update_conv' split: sum.splits)
  qed
  with a show "getConnection drv' tenantId s' = (Inr c', s')"
    by (simp add: getConnection_unfold)
next
  assume a: "map_of (connections s) (connectionKey_of tenantId) = Some c \<and> readyState (heap s c) \<noteq> 1"
  then show "getConnection drv tenantId s =
            connect drv tenantId (connectionKey_of tenantId)
              (s\<lparr>connections := AList.delete (connectionKey_of tenantId) (connections s)\<rparr>)"
    by (simp add: getConnection_unfold)
  show "map_of (AList.delete (connectionKey_of tenantId) (connections s))
                (connectionKey_of tenantId) = None"
    by (simp add: AList.delete_conv')
  from a show "\<exists>line. effects (snd (getConnection drv tenantId s)) =
                effects s @
                [CreateConnection
                   (baseConnectionString s @ ''/'' @ dbName_of (mainDbName s) tenantId)
                   (connectionOptions s), line]
                \<and> line \<noteq> Close c"
    by (auto simp: getConnection_unfold connect_effects split: sum.split)
qed

text \<open>
  On the example cluster: \<^verbatim>\<open>t1\<close> is cached and ready, so a call returns connection 0
  and changes nothing, also right after the call that created it; once the driver has set
  its readiness to 0, a call drops the record and, the driver failing, leaves none.
\<close>

theorem getConnection_cache_witness:
  "getConnection drv_ok (Some ''t1'') s1 = (Inr 0, s1)
   \<and> getConnection drv_fail (Some ''t1'') (snd (getConnection drv_ok (Some ''t1'') s0)) = (Inr 0, s1)
   \<and> getConnection drv_fail (Some ''t1'') (set_readyState 0 0 s1) =
       connect drv_fail (Some ''t1'') ''t1'' ((set_readyState 0 0 s1)\<lparr>connections := []\<rparr>)
   \<and> map_of (connections (snd (getConnection drv_fail (Some ''t1'') (set_readyState 0 0 s1))))
        ''t1'' = None"
  using getConnection_cache [where s = s1 and tenantId = "Some ''t1''" and c = 0 and drv = drv_ok
          and c' = 0 and s' = s1 and drv' = drv_fail]
        getConnection_cache [where s = s0 and tenantId = "Some ''t1''" and c = 0 and drv = drv_ok
          and c' = 0 and s' = s1 and drv' = drv_fail]
        getConnection_cache [where s = "set_readyState 0 0 s1" and tenantId = "Some ''t1''"
          and c = 0 and drv = drv_fail and c' = 0 and s' = s1 and drv' = drv_fail]
  by (simp add: connectionKey_examples s1_connections s1_ready getConnection_s0
      set_readyState_def connect_connections drv_fail_def)

subsection \<open>Key resolution\<close>



subsection \<open>Events of the driver\<close>

text \<open>
  C2. In every reachable state, a cached connection has not emitted \<^verbatim>\<open>error\<close> or
  \<^verbatim>\<open>disconnected\<close>; and when the driver emits one of the two on the connection cached
  under key \<open>k\<close>, the listeners delete the record of \<open>k\<close>: it is no longer in
  \<^verbatim>\<open>connections\<close> nor in the Map that \<^verbatim>\<open>getActiveConnections\<close> returns, and the next
  \<^verbatim>\<open>getConnection\<close> for \<open>k\<close> asks the driver for a new connection. The listeners return
  a state and nothing else: no exception reaches a caller.
\<close>

theorem driver_event_evicts:
  assumes "reachable s" and "map_of (connections s) k = Some c"
    and "ev = ''error'' \<or> ev = ''disconnected''" and "connectionKey_of tenantId = k"
  shows "Emit c ''error'' \<notin> set (effects s) \<and> Emit c ''disconnected'' \<notin> set (effects s)
    \<and> map_of (connections (emit c ev arg s)) k = None
    \<and> (\<exists>m. map_at (snd (getActiveConnections (emit c ev arg s)))
                (fst (getActiveConnections (emit c ev arg s))) = Some m
            \<and> map_of m k = None)
    \<and> (\<exists>line. effects (snd (getConnection drv tenantId (emit c ev arg s))) =
          effects (emit c ev arg s) @
          [CreateConnection (baseConnectionString s @ ''/'' @ dbName_of (mainDbName s) tenantId)
             (connectionOptions s), line])"
proof -
  from assms(1) have inv: "cache_inv s" by (rule reachable_cache_inv)
  from assms(2) have mem: "(k, c) \<in> set (connections s)" by (rule map_of_SomeD)
  with inv have l: "(''error'', EvictOnError k) \<in> set (listeners (heap s c))"
      "(''disconnected'', EvictOnDisconnected k) \<in> set (listeners (heap s c))"
    and quiet: "Emit c ''error'' \<notin> set (effects s)" "Emit c ''disconnected'' \<notin> set (effects s)"
    by (auto simp: cache_inv_def)
  from l assms(3) have gone: "k \<notin> fst ` set (connections (emit c ev arg s))"
    by (auto simp: emit_connections)
  then have none: "map_of (connections (emit c ev arg s)) k = None"
    by (simp add: map_of_eq_None_iff)
  from inv mem have "c < next_ref s" by (auto simp: cache_inv_def)
  with assms(1) have r: "reachable (emit c ev arg s)" by (rule reachable.driver_emits)
  from r have d: "distinct (map fst (connections (emit c ev arg s)))"
    by (auto dest: reachable_cache_inv simp: cache_inv_def)
  from r have a: "connections_addr (emit c ev arg s) < next_map (emit c ev arg s)"
    by (auto dest: reachable_store_ok simp: store_ok_def)
  from gone have "map_of (filter (\<lambda>kc. readyState (heap (emit c ev arg s) (snd kc)) = 1)
      (connections (emit c ev arg s))) k = None"
    by (auto simp: map_of_eq_None_iff)
  then have active: "\<exists>m. map_at (snd (getActiveConnections (emit c ev arg s)))
                (fst (getActiveConnections (emit c ev arg s))) = Some m
            \<and> map_of m k = None"
    using a by (simp add: getActiveConnections_eq [OF a d] map_at_def)
  from none assms(4) have "getConnection drv tenantId (emit c ev arg s) =
      connect drv tenantId k (emit c ev arg s)"
    by (simp add: getConnection_unfold)
  then have "\<exists>line. effects (snd (getConnection drv tenantId (emit c ev arg s))) =
          effects (emit c ev arg s) @
          [CreateConnection (baseConnectionString s @ ''/'' @ dbName_of (mainDbName s) tenantId)
             (connectionOptions s), line]"
    by (simp add: connect_effects emit_config)
  with quiet none active show ?thesis by blast
qed

text \<open>
  On the example cluster: the connection of \<^verbatim>\<open>t1\<close> emits \<^verbatim>\<open>error\<close>, or
  \<^verbatim>\<open>disconnected\<close>, and the record is gone.
\<close>

theorem driver_event_evicts_witness:
  "reachable s1 \<and> map_of (connections s1) ''t1'' = Some 0
   \<and> map_of (connections (emit 0 ''error'' (Some (JsError ''boom'')) s1)) ''t1'' = None
   \<and> (\<exists>m. map_at (snd (getActiveConnections (emit 0 ''error'' (Some (JsError ''boom'')) s1)))
               (fst (getActiveConnections (emit 0 ''error'' (Some (JsError ''boom'')) s1))) = Some m
           \<and> map_of m ''t1'' = None)
   \<and> map_of (connections (emit 0 ''disconnected'' None s1)) ''t1'' = None
   \<and> (\<exists>line. effects (snd (getConnection drv_ok (Some ''t1'') (emit 0 ''disconnected'' None s1))) =
          effects (emit 0 ''disconnected'' None s1) @
          [CreateConnection ''mongodb+srv://cluster/app_t1'' (connectionOptions s1), line])"
  using driver_event_evicts [where s = s1 and k = "''t1''" and c = 0 and ev = "''error''"
          and tenantId = "Some ''t1''" and arg = "Some (JsError ''boom'')" and drv = drv_ok]
        driver_event_evicts [where s = s1 and k = "''t1''" and c = 0 and ev = "''disconnected''"
          and tenantId = "Some ''t1''" and arg = None and drv = drv_ok]
  by (simp add: reachable_s1 s1_connections connectionKey_examples s1_config dbName_of_def)

subsection \<open>The address of a new connection\<close>

text \<open>
  C3, as the code has it. The tenant \<^verbatim>\<open>"main"\<close> resolves to the key \<^verbatim>\<open>"main"\<close>, yet
  its database is not the default one: on the example cluster the driver is asked for
  \<^verbatim>\<open>mongodb+srv://cluster/app_main\<close>.
\<close>

theorem main_tenant_database_counterexample:
  "connectionKey_of (Some ''main'') = ''main''
   \<and> dbName_of (mainDbName s0) (Some ''main'') \<noteq> mainDbName s0
   \<and> effects (snd (getConnection drv_ok (Some ''main'') s0)) =
       [CreateConnection ''mongodb+srv://cluster/app_main'' (connectionOptions s0),
        Console_log (Connected_to_database ''app_main'')]"
  by (simp add: connectionKey_examples getConnection_unfold s0_connections connect_effects
      s0_effects s0_config dbName_of_def drv_ok_def)

text \<open>
  C3, amended. On every cache miss (no record for the resolved key, or one that is not
  ready) \<^verbatim>\<open>getConnection\<close> asks the driver for the address
  \<^verbatim>\<open>{baseConnectionString}/{databaseName}\<close>, where the database name is \<^verbatim>\<open>mainDbName\<close>
  exactly when the tenant key argument is absent, \<^verbatim>\<open>null\<close> or the empty string, and
  \<^verbatim>\<open>{mainDbName}_{tenantKey}\<close> for every non-empty tenant key.
\<close>

theorem connection_address:
  assumes "\<forall>c. map_of (connections s) (connectionKey_of tenantId) = Some c
             \<longrightarrow> readyState (heap s c) \<noteq> 1"
  shows "(\<exists>line. effects (snd (getConnection drv tenantId s)) =
            effects s @
            [CreateConnection
               (baseConnectionString s @ ''/'' @ dbName_of (mainDbName s) tenantId)
               (connectionOptions s), line])
    \<and> (dbName_of (mainDbName s) tenantId = mainDbName s
         \<longleftrightarrow> tenantId = None \<or> tenantId = Some [])
    \<and> (\<forall>t. tenantId = Some t \<and> t \<noteq> []
         \<longrightarrow> dbName_of (mainDbName s) tenantId = mainDbName s @ ''_'' @ t)"
proof (intro conjI)
  show "\<exists>line. effects (snd (getConnection drv tenantId s)) =
            effects s @
            [CreateConnection
               (baseConnectionString s @ ''/'' @ dbName_of (mainDbName s) tenantId)
               (connectionOptions s), line]"
    by (simp add: getConnection_miss [OF assms] connect_effects)
  show "dbName_of (mainDbName s) tenantId = mainDbName s
         \<longleftrightarrow> tenantId = None \<or> tenantId = Some []"
    by (cases tenantId) (simp_all add: dbName_of_def)
  show "\<forall>t. tenantId = Some t \<and> t \<noteq> []
         \<longrightarrow> dbName_of (mainDbName s) tenantId = mainDbName s @ ''_'' @ t"
    by (simp add: dbName_of_def)
qed

text \<open>
  The scenario of the specification: \<^verbatim>\<open>getConnection("t1")\<close> connects to
  \<^verbatim>\<open>mongodb+srv://cluster/app_t1\<close> and \<^verbatim>\<open>getConnection(null)\<close> to
  \<^verbatim>\<open>mongodb+srv://cluster/app\<close>.
\<close>

theorem connection_address_witness:
  "effects (snd (getConnection drv_ok (Some ''t1'') s0)) =
     [CreateConnection ''mongodb+srv://cluster/app_t1'' (connectionOptions s0),
      Console_log (Connected_to_database ''app_t1'')]
   \<and> effects (snd (getConnection drv_ok None s0)) =
     [CreateConnection ''mongodb+srv://cluster/app'' (connectionOptions s0),
      Console_log (Connected_to_database ''app'')]
   \<and> (\<exists>line. effects (snd (getConnection drv_ok (Some ''t1'') s0)) =
         effects s0 @ [CreateConnection ''mongodb+srv://cluster/app_t1'' (connectionOptions s0), line])"
  using connection_address [where s = s0 and tenantId = "Some ''t1''" and drv = drv_ok]
  by (simp add: connectionKey_examples getConnection_unfold s0_connections connect_effects
      s0_effects s0_config dbName_of_def drv_ok_def)

subsection \<open>A connection that cannot be established\<close>

text \<open>
  C4, as the code has it. The error thrown for tenant \<^verbatim>\<open>t1\<close> and the one thrown for
  tenant \<^verbatim>\<open>t2\<close> are the same value: the thrown error does not tell the tenant key.
\<close>

theorem connection_error_counterexample:
  "fst (getConnection drv_fail (Some ''t1'') s0) = Inl (JsError ''Database connection failed: boom'')
   \<and> fst (getConnection drv_fail (Some ''t2'') s0) = Inl (JsError ''Database connection failed: boom'')
   \<and> connectionKey_of (Some ''t1'') \<noteq> connectionKey_of (Some ''t2'')"
  by (simp add: connectionKey_examples getConnection_unfold s0_connections connect_fst
      drv_fail_def)

text \<open>
  C4, amended. When the driver rejects the connection request on a cache miss,
  \<^verbatim>\<open>getConnection\<close> throws an \<^verbatim>\<open>Error\<close> whose message is
  \<^verbatim>\<open>Database connection failed: \<close> followed by the message of the cause; the state it
  leaves is the old one with the record of the resolved key deleted (nothing stored), and
  the trace grows by exactly one \<^verbatim>\<open>createConnection\<close> (no retry) and the console line,
  which is where the key appears.
\<close>

theorem failed_connection:
  assumes miss: "\<forall>c. map_of (connections s) (connectionKey_of tenantId) = Some c
             \<longrightarrow> readyState (heap s c) \<noteq> 1"
    and fails: "drv_createConnection drv
             (baseConnectionString s @ ''/'' @ dbName_of (mainDbName s) tenantId)
             (connectionOptions s) = Inl error"
  shows "getConnection drv tenantId s =
    (Inl (JsError (''Database connection failed: '' @ message error)),
     s\<lparr>connections := AList.delete (connectionKey_of tenantId) (connections s),
       effects := effects s @
         [CreateConnection
            (baseConnectionString s @ ''/'' @ dbName_of (mainDbName s) tenantId)
            (connectionOptions s),
          Console_error (Failed_to_connect (connectionKey_of tenantId) error)]\<rparr>)"
  using fails
  by (simp add: getConnection_miss [OF miss] connect_def emit_effect_def Let_def)

text \<open>
  On the example cluster, with the record of \<^verbatim>\<open>t1\<close> gone stale and a driver that
  fails.
\<close>

theorem failed_connection_witness:
  "getConnection drv_fail (Some ''t1'') (set_readyState 0 0 s1) =
    (Inl (JsError ''Database connection failed: boom''),
     (set_readyState 0 0 s1)\<lparr>connections := [],
       effects := effects s1 @
         [CreateConnection ''mongodb+srv://cluster/app_t1'' (connectionOptions s1),
          Console_error (Failed_to_connect ''t1'' (JsError ''boom''))]\<rparr>)"
  using failed_connection [where s = "set_readyState 0 0 s1" and tenantId = "Some ''t1''"
          and drv = drv_fail and error = "JsError ''boom''"]
  by (simp add: connectionKey_examples set_readyState_def s1_connections s1_config
      dbName_of_def drv_fail_def)

subsection \<open>Closing one connection\<close>

text \<open>
  C5. \<^verbatim>\<open>closeConnection\<close> always completes normally. Without a record for the resolved
  key it leaves the state as it is; with one, it asks the driver to close the connection,
  logs the outcome, whichever it is, and deletes the record.
\<close>

theorem closeConnection_cleanup:
  "fst (closeConnection drv tenantId s) = Inr ()
   \<and> (map_of (connections s) (connectionKey_of tenantId) = None
        \<longrightarrow> snd (closeConnection drv tenantId s) = s)
   \<and> (\<forall>c. map_of (connections s) (connectionKey_of tenantId) = Some c
        \<longrightarrow> snd (closeConnection drv tenantId s) =
              s\<lparr>connections := AList.delete (connectionKey_of tenantId) (connections s),
                effects := effects s @
                  [Close c,
                   (case drv_close drv c of
                      None \<Rightarrow> Console_log (Closed_connection (connectionKey_of tenantId))
                    | Some error \<Rightarrow>
                        Console_error
                          (Error_closing_connection (connectionKey_of tenantId) error))]\<rparr>
            \<and> map_of (connections (snd (closeConnection drv tenantId s)))
                 (connectionKey_of tenantId) = None)"
  by (simp add: closeConnection_def emit_effect_def Let_def AList.delete_conv'
      split: option.split)

text \<open>
  On the example cluster: an unknown tenant, then \<^verbatim>\<open>t1\<close> with a driver whose
  \<^verbatim>\<open>close\<close> fails and with one whose \<^verbatim>\<open>close\<close> succeeds.
\<close>

theorem closeConnection_cleanup_witness:
  "closeConnection drv_fail (Some ''t9'') s1 = (Inr (), s1)
   \<and> closeConnection drv_fail (Some ''t1'') s1 =
       (Inr (), s1\<lparr>connections := [],
                   effects := effects s1 @
                     [Close 0,
                      Console_error
                        (Error_closing_connection ''t1'' (JsError ''close failed''))]\<rparr>)
   \<and> connections (snd (closeConnection drv_ok (Some ''t1'') s1)) = []"
  using closeConnection_cleanup [where s = s1 and tenantId = "Some ''t9''" and drv = drv_fail]
        closeConnection_cleanup [where s = s1 and tenantId = "Some ''t1''" and drv = drv_fail]
        closeConnection_cleanup [where s = s1 and tenantId = "Some ''t1''" and drv = drv_ok]
  by (simp add: connectionKey_of_def s1_connections drv_fail_def drv_ok_def prod_eq_iff)

subsection \<open>Closing every connection\<close>

text \<open>
  C6. \<^verbatim>\<open>closeAllConnections\<close> always completes normally and leaves \<^verbatim>\<open>connections\<close>
  empty, whatever the driver answers to each \<^verbatim>\<open>close\<close>: every connection is asked to
  close, every outcome is logged, success or failure, and then the Map is cleared, so that
  the Map that \<^verbatim>\<open>getActiveConnections\<close> returns afterwards is empty.
\<close>

theorem closeAllConnections_empties:
  "closeAllConnections drv s =
     (Inr (),
      s\<lparr>connections := [],
        effects := effects s @ map (\<lambda>kc. Close (snd kc)) (connections s)
          @ map (\<lambda>kc. case drv_close drv (snd kc) of
                         None \<Rightarrow> Console_log (Closed_connection (fst kc))
                       | Some error \<Rightarrow>
                           Console_error (Error_closing_connection (fst kc) error))
              (connections s)
          @ [Console_log All_database_connections_closed]\<rparr>)
   \<and> map_at (snd (getActiveConnections (snd (closeAllConnections drv s))))
        (fst (getActiveConnections (snd (closeAllConnections drv s)))) = Some []"
  by (simp add: closeAllConnections_def emit_effect_def getActiveConnections_def new_Map_def
      map_at_def settle_close_def [abs_def])

text \<open>
  Three tenants connected, and the driver fails to close the second connection: the other
  two are closed all the same and nothing is left.
\<close>

theorem closeAllConnections_empties_witness:
  "closeAllConnections drv_flaky s3 =
     (Inr (),
      s3\<lparr>connections := [],
         effects := effects s3 @
           [Close 0, Close 1, Close 2,
            Console_log (Closed_connection ''t1''),
            Console_error (Error_closing_connection ''t2'' (JsError ''close failed'')),
            Console_log (Closed_connection ''t3''),
            Console_log All_database_connections_closed]\<rparr>)
   \<and> map_at (snd (getActiveConnections (snd (closeAllConnections drv_flaky s3))))
        (fst (getActiveConnections (snd (closeAllConnections drv_flaky s3)))) = Some []"
  using closeAllConnections_empties [of drv_flaky s3]
  by (simp add: s3_connections drv_flaky_def getActiveConnections_def new_Map_def map_at_def)

subsection \<open>The health check\<close>

text \<open>
  What \<^verbatim>\<open>healthCheck\<close> does for keys that are ordinary property names. It changes nothing
  but the trace, to which it adds one ping per record; it completes normally; and the own
  properties of the object it returns are the keys of \<^verbatim>\<open>connections\<close> other than
  \<^verbatim>\<open>__proto__\<close>, each with the report that its own ping decides.
\<close>

lemma healthCheck_own_reports:
  assumes "distinct (map fst (connections s))"
  shows "snd (healthCheck drv s) =
           s\<lparr>effects := effects s @ map (\<lambda>kc. Ping (snd kc)) (connections s)\<rparr>
    \<and> (\<exists>health. fst (healthCheck drv s) = Inr health
          \<and> dom (own_properties health) = fst ` set (connections s) - {''__proto__''}
          \<and> (\<forall>(k, c) \<in> set (connections s). k \<noteq> ''__proto__'' \<longrightarrow>
                own_properties health k =
                  Some (case drv_ping drv c of
                          None \<Rightarrow>
                            Healthy (readyState (heap s c)) (host (heap s c)) (port (heap s c))
                              (name (heap s c))
                        | Some error \<Rightarrow> Unhealthy (message error) (readyState (heap s c)))))"
proof -
  let ?health = "fst (health_loop drv (connections s) empty_object s)"
  have res: "fst (healthCheck drv s) = Inr ?health"
    by (simp add: healthCheck_def case_prod_beta)
  have look: "own_properties ?health k =
      (if k = ''__proto__'' then None
       else case map_of (connections s) k of None \<Rightarrow> None
            | Some c \<Rightarrow> Some (probe drv c s))" for k
    using assms
    by (simp add: health_loop_own map_of_rev_distinct empty_object_def split: option.split)
  have d: "dom (own_properties ?health) = fst ` set (connections s) - {''__proto__''}"
  proof -
    have "dom (own_properties ?health) = dom (map_of (connections s)) - {''__proto__''}"
      by (auto simp: look dom_def split: option.splits if_splits)
    then show ?thesis by (simp add: dom_map_of_conv_image_fst)
  qed
  have r: "\<forall>(k, c) \<in> set (connections s). k \<noteq> ''__proto__'' \<longrightarrow>
             own_properties ?health k =
               Some (case drv_ping drv c of
                       None \<Rightarrow>
                         Healthy (readyState (heap s c)) (host (heap s c)) (port (heap s c))
                           (name (heap s c))
                     | Some error \<Rightarrow> Unhealthy (message error) (readyState (heap s c)))"
    using assms by (auto simp: look probe_def)
  from res d r show ?thesis
    by (simp add: healthCheck_snd)
qed

text \<open>
  C7, where the code departs from it. With the tenants \<^verbatim>\<open>t1\<close> and \<^verbatim>\<open>__proto__\<close>
  connected, a reachable state, \<^verbatim>\<open>healthCheck\<close> leaves \<^verbatim>\<open>connections\<close> alone and pings
  both connections, but the object it returns has one own property, \<^verbatim>\<open>t1\<close>: the report
  of \<^verbatim>\<open>__proto__\<close> has become the prototype of the object, so there are two records and
  one report.
\<close>

theorem healthCheck_proto_key:
  "reachable s_proto
   \<and> connections s_proto = [(''t1'', 0), (''__proto__'', 1)]
   \<and> healthCheck drv_ok s_proto =
       (Inr \<lparr>own_properties = [''t1'' \<mapsto> Healthy 1 ''cluster'' 27017 ''app_t1''],
             prototype = Some (Healthy 1 ''cluster'' 27017 ''app___proto__'')\<rparr>,
        s_proto\<lparr>effects := effects s_proto @ [Ping 0, Ping 1]\<rparr>)
   \<and> [''t1'' \<mapsto> Healthy 1 ''cluster'' 27017 ''app_t1''] ''__proto__'' = None"
  by (simp add: reachable_s_proto s_proto_connections s_proto_heap s1_heap healthCheck_def
      empty_object_def set_property_def probe_def emit_effect_def drv_ok_def Let_def)

subsection \<open>The active connections\<close>

text \<open>
  C8. \<^verbatim>\<open>getActiveConnections\<close> returns a new Map object: its address is not that of the
  Map of the instance and held no Map before the call. The new Map holds exactly the records
  of \<^verbatim>\<open>connections\<close> whose connection reports \<^verbatim>\<open>readyState\<close> 1, in the same order.
  Nothing else changes: \<^verbatim>\<open>connections\<close> and every other Map object are as before, and
  whatever is later written to \<^verbatim>\<open>connections\<close> does not show in the Map returned. The
  keys of a Map are not repeated, and the Map of the instance was allocated before the call.
\<close>

theorem getActiveConnections_snapshot:
  assumes "distinct (map fst (connections s))" and "store_ok s"
  shows "getActiveConnections s =
           (next_map s,
            s\<lparr>map_store := (map_store s)(next_map s \<mapsto>
                 filter (\<lambda>kc. readyState (heap s (snd kc)) = 1) (connections s)),
              next_map := Suc (next_map s)\<rparr>)
    \<and> fst (getActiveConnections s) \<noteq> connections_addr s
    \<and> map_at s (fst (getActiveConnections s)) = None
    \<and> map_at (snd (getActiveConnections s)) (fst (getActiveConnections s)) =
        Some (filter (\<lambda>kc. readyState (heap s (snd kc)) = 1) (connections s))
    \<and> (\<forall>k. map_of (filter (\<lambda>kc. readyState (heap s (snd kc)) = 1) (connections s)) k =
              (case map_of (connections s) k of
                 None \<Rightarrow> None
               | Some c \<Rightarrow> if readyState (heap s c) = 1 then Some c else None))
    \<and> connections (snd (getActiveConnections s)) = connections s
    \<and> (\<forall>a. a \<noteq> fst (getActiveConnections s) \<longrightarrow>
              map_at (snd (getActiveConnections s)) a = map_at s a)
    \<and> (\<forall>es. map_at ((snd (getActiveConnections s))\<lparr>connections := es\<rparr>)
                (fst (getActiveConnections s)) =
              Some (filter (\<lambda>kc. readyState (heap s (snd kc)) = 1) (connections s)))"
proof -
  from assms(2) have a: "connections_addr s < next_map s"
    and free: "map_store s (next_map s) = None"
    by (simp_all add: store_ok_def)
  note eq = getActiveConnections_eq [OF a assms(1)]
  have ready: "\<forall>k. map_of (filter (\<lambda>kc. readyState (heap s (snd kc)) = 1) (connections s)) k =
              (case map_of (connections s) k of
                 None \<Rightarrow> None
               | Some c \<Rightarrow> if readyState (heap s c) = 1 then Some c else None)"
    using map_of_filter_snd [OF assms(1), of "\<lambda>c. readyState (heap s c) = 1"] by simp
  from a free ready show ?thesis
    by (simp add: eq map_at_def)
qed

text \<open>
  Three tenants connected, the second connection no longer ready: the new Map is at address
  1, the Map of the instance at address 0.
\<close>

theorem getActiveConnections_snapshot_witness:
  "getActiveConnections (set_readyState 1 0 s3) =
     (1, (set_readyState 1 0 s3)\<lparr>map_store := [1 \<mapsto> [(''t1'', 0), (''t3'', 2)]], next_map := 2\<rparr>)
   \<and> connections_addr (set_readyState 1 0 s3) = 0
   \<and> map_at (set_readyState 1 0 s3) 1 = None
   \<and> map_at (snd (getActiveConnections (set_readyState 1 0 s3))) 1 =
       Some [(''t1'', 0), (''t3'', 2)]
   \<and> map_at (snd (getActiveConnections (set_readyState 1 0 s3))) 0 =
       Some [(''t1'', 0), (''t2'', 1), (''t3'', 2)]
   \<and> map_at ((snd (getActiveConnections (set_readyState 1 0 s3)))\<lparr>connections := []\<rparr>) 1 =
       Some [(''t1'', 0), (''t3'', 2)]"
  using getActiveConnections_snapshot [of "set_readyState 1 0 s3"]
  by (simp add: set_readyState_def s3_connections s3_heap s2_heap s1_heap s3_store
      store_ok_def map_at_def)

subsection \<open>Information about one connection\<close>

text \<open>
  C9. \<^verbatim>\<open>getConnectionInfo\<close> leaves the whole state as it was (nothing is stored, the
  driver is not called). Without a record for the resolved key it returns \<^verbatim>\<open>null\<close>; with
  one it returns the key, \<^verbatim>\<open>readyState\<close>, \<^verbatim>\<open>host\<close>, \<^verbatim>\<open>port\<close>, the database name and the
  names of the registered models (none when the connection has no \<^verbatim>\<open>models\<close>).
\<close>

theorem getConnectionInfo_lookup:
  "snd (getConnectionInfo tenantId s) = s
   \<and> (map_of (connections s) (connectionKey_of tenantId) = None
        \<longrightarrow> fst (getConnectionInfo tenantId s) = None)
   \<and> (\<forall>c. map_of (connections s) (connectionKey_of tenantId) = Some c
        \<longrightarrow> fst (getConnectionInfo tenantId s) =
              Some \<lparr>info_key = connectionKey_of tenantId,
                    info_readyState = readyState (heap s c),
                    info_host = host (heap s c),
                    info_port = port (heap s c),
                    info_dbName = name (heap s c),
                    info_collections =
                      (case models (heap s c) of None \<Rightarrow> [] | Some ms \<Rightarrow> ms)\<rparr>)"
  by (simp add: getConnectionInfo_def Let_def split: option.split)

text \<open>
  Three tenants connected: an unknown tenant and the default tenant have no record,
  \<^verbatim>\<open>t2\<close> has one.
\<close>

theorem getConnectionInfo_lookup_witness:
  "getConnectionInfo (Some ''t9'') s3 = (None, s3)
   \<and> getConnectionInfo None s3 = (None, s3)
   \<and> getConnectionInfo (Some ''t2'') s3 =
       (Some \<lparr>info_key = ''t2'', info_readyState = 1, info_host = ''cluster'',
              info_port = 27017, info_dbName = ''app_t2'',
              info_collections = []\<rparr>, s3)"
  using getConnectionInfo_lookup [of "Some ''t9''" s3]
        getConnectionInfo_lookup [of None s3]
        getConnectionInfo_lookup [of "Some ''t2''" s3]
  by (simp add: connectionKey_of_def s3_connections s3_heap s2_heap prod_eq_iff)

end
